theory Spec2Isabelle
  imports Complex_Main "HOL-Library.Word" "HOL-Library.Sublist"
begin

section \<open>Session cookie encryption (lib/encrypt.js)\<close>

text \<open>
  The module exports \<^verbatim>\<open>encryptData\<close> and \<^verbatim>\<open>decryptData\<close>. Both are
  built from small helpers over Node's \<^verbatim>\<open>Buffer\<close>, \<^verbatim>\<open>crypto\<close> and
  \<^verbatim>\<open>JSON\<close>. The helpers of the module are embedded one by one below, under
  their own names. What they call in the runtime is modelled in two ways:
  \<^item> the \<^verbatim>\<open>Buffer\<close> conversions (hex, base64, utf8) are deterministic and are
    written out as functions;
  \<^item> the cipher objects, the random source and the JSON codec are parameters,
    collected in a record \<open>platform\<close>.
\<close>

subsection \<open>Errors\<close>

text \<open>
  A thrown JavaScript error is its constructor and its message. Every
  \<^verbatim>\<open>throw\<close> of the module is one of the seven constants below.
\<close>

datatype err_class = Error | TypeError | EvalError | RangeError | SyntaxError

datatype js_error = Thrown err_class string

definition invalid_session :: js_error where
  "invalid_session = Thrown TypeError ''Session data is invalid, cannot encrypt''"

definition opts_required :: js_error where
  "opts_required = Thrown Error
     ''Cannot encrypt session data, encryption opts {algo, ivlen, secret} is required''"

definition max_length_exceeded :: js_error where
  "max_length_exceeded = Thrown Error ''Cannot encrypt the session, max cookie length exceeded''"

definition invalid_cookie :: js_error where
  "invalid_cookie = Thrown Error ''Cannot read encrypted cookie, invalid data''"

definition invalid_text :: js_error where
  "invalid_text = Thrown EvalError ''Cannot evaluate encrypted text, invalid data''"

definition invalid_components :: js_error where
  "invalid_components = Thrown RangeError
     ''Cannot evaluate encrypted text, invalid number of components''"

definition invalid_json :: js_error where
  "invalid_json = Thrown EvalError ''Cannot convert decoded cookie string to valid JSON''"

text \<open>Sequencing of steps that may throw: the first error ends the call.\<close>

definition and_then :: "js_error + 'a \<Rightarrow> ('a \<Rightarrow> js_error + 'b) \<Rightarrow> js_error + 'b" where
  "and_then m f = (case m of Inl e \<Rightarrow> Inl e | Inr x \<Rightarrow> f x)"

subsection \<open>JavaScript values\<close>

text \<open>
  The values that reach the module as session data or come back from
  \<^verbatim>\<open>JSON.parse\<close>: the primitives, and three kinds of object (arrays, plain
  objects with their properties in order, and the wrapper objects
  \<^verbatim>\<open>new Boolean(b)\<close>, \<^verbatim>\<open>new Number(n)\<close>, \<^verbatim>\<open>new String(s)\<close>).
  Numbers are the finite ones; \<open>-0\<close> is not told apart from \<open>0\<close>.
\<close>

datatype jsval =
    JUndefined
  | JNull
  | JBool bool
  | JNum rat
  | JStr string
  | JArr "jsval list"
  | JObj "(string \<times> jsval) list"
  | JWrapper jsval

text \<open>\<^verbatim>\<open>Object(v)\<close>: an object is returned as it is, a primitive is wrapped,
  \<^verbatim>\<open>undefined\<close> and \<^verbatim>\<open>null\<close> give a new empty object.\<close>

fun Object :: "jsval \<Rightarrow> jsval" where
  "Object JUndefined = JObj []"
| "Object JNull = JObj []"
| "Object (JBool b) = JWrapper (JBool b)"
| "Object (JNum n) = JWrapper (JNum n)"
| "Object (JStr s) = JWrapper (JStr s)"
| "Object v = v"

text \<open>\<^verbatim>\<open>!v\<close> is true of \<^verbatim>\<open>undefined\<close>, \<^verbatim>\<open>null\<close>, \<^verbatim>\<open>false\<close>,
  \<^verbatim>\<open>0\<close> and \<^verbatim>\<open>""\<close>; every object is truthy.\<close>

fun falsy :: "jsval \<Rightarrow> bool" where
  "falsy JUndefined = True"
| "falsy JNull = True"
| "falsy (JBool b) = (\<not> b)"
| "falsy (JNum n) = (n = 0)"
| "falsy (JStr s) = (s = [])"
| "falsy v = False"

text \<open>\<^verbatim>\<open>a !== b\<close> between values of the model. Values of different types are
  never strictly equal; an object is strictly equal to itself only, and the model
  compares an object with itself in the one place where the module compares objects
  (\<^verbatim>\<open>data !== Object(data)\<close>).\<close>

definition strict_neq :: "jsval \<Rightarrow> jsval \<Rightarrow> bool" where
  "strict_neq a b = (a \<noteq> b)"

subsection \<open>Buffers and their string conversions\<close>

type_synonym byte = "8 word"
type_synonym buffer = "byte list"

text \<open>
  Text is modelled over Isabelle's 8-bit characters, and the model is exact for ASCII
  text: a byte below 0x80 is the character of that code. A byte outside ASCII is kept
  as one character in the range 0x80 to 0xFF, where Node's utf8 decoder merges a
  well-formed multi-byte sequence into one character and substitutes U+FFFD for the
  rest. The places of the character \<open>.\<close> and the emptiness of a piece are the same
  either way (the byte 0x2e alone decodes to \<open>.\<close>, and bytes never decode to an
  empty text). The bytes read from the hex digits of a piece are the same only when
  the piece is ASCII, so every statement below about what the hex decoding returns is
  about ASCII text. Every string the module itself builds (hex digits, dots, base64
  text) is ASCII.
\<close>

definition byte_to_char :: "byte \<Rightarrow> char" where
  "byte_to_char b = char_of (unat b)"

definition char_to_byte :: "char \<Rightarrow> byte" where
  "char_to_byte c = of_nat (of_char c)"

text \<open>\<^verbatim>\<open>Buffer.from(s)\<close> and \<^verbatim>\<open>buf.toString('utf8')\<close>.\<close>

definition from_utf8 :: "string \<Rightarrow> buffer" where
  "from_utf8 s = map char_to_byte s"

definition toString_utf8 :: "buffer \<Rightarrow> string" where
  "toString_utf8 bs = map byte_to_char bs"

text \<open>\<^verbatim>\<open>Buffer.byteLength(s)\<close>.\<close>

definition byteLength :: "string \<Rightarrow> nat" where
  "byteLength s = length (from_utf8 s)"

text \<open>\<^verbatim>\<open>buf.toString('hex')\<close>: two digits for each byte, from \<open>0\<close> to \<open>9\<close>
  (character codes 48 to 57) and \<open>a\<close> to \<open>f\<close> (97 to 102).\<close>

definition hex_digit :: "nat \<Rightarrow> char" where
  "hex_digit n = (if n < 10 then char_of (48 + n) else char_of (87 + n))"

definition toString_hex :: "buffer \<Rightarrow> string" where
  "toString_hex bs = concat (map (\<lambda>b. [hex_digit (unat b div 16), hex_digit (unat b mod 16)]) bs)"

text \<open>
  \<^verbatim>\<open>Buffer.from(s, 'hex')\<close> reads the string two characters at a time and
  stops, without an error, at the first pair that is not two hex digits or at a
  single last character: \<^verbatim>\<open>Buffer.from('1ag123', 'hex')\<close> is the one byte
  \<^verbatim>\<open>1a\<close>. This is Node's decoder on ASCII strings. On a character outside
  ASCII Node looks at the low byte of its UTF-16 code unit only (so that U+0431 counts
  as the digit \<open>1\<close>), where the function below stops; the statements that use it
  keep to ASCII text.
\<close>

definition hex_value :: "char \<Rightarrow> nat option" where
  "hex_value c = (let n = (of_char c :: nat) in
     if 48 \<le> n \<and> n \<le> 57 then Some (n - 48)
     else if 97 \<le> n \<and> n \<le> 102 then Some (n - 87)
     else if 65 \<le> n \<and> n \<le> 70 then Some (n - 55)
     else None)"

fun from_hex :: "string \<Rightarrow> buffer" where
  "from_hex (c # d # rest) =
     (case (hex_value c, hex_value d) of
        (Some h, Some l) \<Rightarrow> of_nat (16 * h + l) # from_hex rest
      | _ \<Rightarrow> [])"
| "from_hex _ = []"

text \<open>The module's \<^verbatim>\<open>convertHexToBuffer\<close>.\<close>

definition convertHexToBuffer :: "string \<Rightarrow> buffer" where
  "convertHexToBuffer text = from_hex text"

text \<open>\<^verbatim>\<open>buf.toString('base64')\<close>: the standard alphabet (\<open>A\<close> to \<open>Z\<close>,
  \<open>a\<close> to \<open>z\<close>, \<open>0\<close> to \<open>9\<close>, \<open>+\<close>, \<open>/\<close>), padded with \<open>=\<close>.\<close>

definition base64_char :: "nat \<Rightarrow> char" where
  "base64_char n =
     (if n < 26 then char_of (65 + n)
      else if n < 52 then char_of (71 + n)
      else if n < 62 then char_of (n - 4)
      else if n = 62 then CHR ''+''
      else CHR ''/'')"

fun toString_base64 :: "buffer \<Rightarrow> string" where
  "toString_base64 [] = []"
| "toString_base64 [a] =
     [base64_char (unat a div 4), base64_char (unat a mod 4 * 16), CHR ''='', CHR ''='']"
| "toString_base64 [a, b] =
     [base64_char (unat a div 4), base64_char (unat a mod 4 * 16 + unat b div 16),
      base64_char (unat b mod 16 * 4), CHR ''='']"
| "toString_base64 (a # b # c # rest) =
     [base64_char (unat a div 4), base64_char (unat a mod 4 * 16 + unat b div 16),
      base64_char (unat b mod 16 * 4 + unat c div 64), base64_char (unat c mod 64)]
     @ toString_base64 rest"

text \<open>
  \<^verbatim>\<open>Buffer.from(s, 'base64')\<close> never throws. It accepts the standard and the
  URL-safe alphabet, skips every other character, and stops at the first \<open>=\<close>. Four
  digits of six bits give three bytes; two or three digits left at the end give one or two bytes,
  a single one gives none.
\<close>

definition base64_value :: "char \<Rightarrow> nat option" where
  "base64_value c = (let n = (of_char c :: nat) in
     if 65 \<le> n \<and> n \<le> 90 then Some (n - 65)
     else if 97 \<le> n \<and> n \<le> 122 then Some (n - 71)
     else if 48 \<le> n \<and> n \<le> 57 then Some (n + 4)
     else if c = CHR ''+'' \<or> c = CHR ''-'' then Some 62
     else if c = CHR ''/'' \<or> c = CHR ''_'' then Some 63
     else None)"

definition base64_digits :: "string \<Rightarrow> nat list" where
  "base64_digits s = List.map_filter base64_value (takeWhile (\<lambda>c. c \<noteq> CHR ''='') s)"

fun from_digits :: "nat list \<Rightarrow> buffer" where
  "from_digits (a # b # c # d # rest) =
     [of_nat (a * 4 + b div 16), of_nat (b mod 16 * 16 + c div 4), of_nat (c mod 4 * 64 + d)]
     @ from_digits rest"
| "from_digits [a, b, c] = [of_nat (a * 4 + b div 16), of_nat (b mod 16 * 16 + c div 4)]"
| "from_digits [a, b] = [of_nat (a * 4 + b div 16)]"
| "from_digits _ = []"

definition from_base64 :: "string \<Rightarrow> buffer" where
  "from_base64 s = from_digits (base64_digits s)"

text \<open>\<^verbatim>\<open>text.split('.')\<close>: the pieces between the separators, empty pieces
  included; a text without the separator is its own single piece.\<close>

fun split :: "char \<Rightarrow> string \<Rightarrow> string list" where
  "split sep [] = [[]]"
| "split sep (c # cs) =
     (if c = sep then [] # split sep cs
      else (case split sep cs of [] \<Rightarrow> [[c]] | w # ws \<Rightarrow> (c # w) # ws))"

text \<open>\<^verbatim>\<open>text.includes('.')\<close>.\<close>

definition includes_str :: "string \<Rightarrow> char \<Rightarrow> bool" where
  "includes_str text c = (c \<in> set text)"

text \<open>\<^verbatim>\<open>[a, b, c].join('.')\<close>.\<close>

fun join :: "char \<Rightarrow> string list \<Rightarrow> string" where
  "join sep [] = []"
| "join sep [w] = w"
| "join sep (w # ws) = w @ sep # join sep ws"

text \<open>\<^verbatim>\<open>s.toLowerCase()\<close> on the ASCII letters, and \<^verbatim>\<open>s.indexOf(t)\<close>: the
  position of the first occurrence of \<open>t\<close>, or \<open>-1\<close>.\<close>

definition toLowerCase :: "string \<Rightarrow> string" where
  "toLowerCase s = map (\<lambda>c. let n = (of_char c :: nat) in
     if 65 \<le> n \<and> n \<le> 90 then char_of (n + 32) else c) s"

fun indexOf_from :: "int \<Rightarrow> string \<Rightarrow> string \<Rightarrow> int" where
  "indexOf_from i [] t = (if t = [] then i else - 1)"
| "indexOf_from i (c # cs) t = (if prefix t (c # cs) then i else indexOf_from (i + 1) cs t)"

definition indexOf :: "string \<Rightarrow> string \<Rightarrow> int" where
  "indexOf s t = indexOf_from 0 s t"

subsection \<open>The frame parser\<close>

record components =
  iv :: buffer
  auth :: buffer
  data :: buffer

text \<open>
  \<^verbatim>\<open>extractComponents\<close>. The test \<^verbatim>\<open>!components[i]\<close> on a string is the
  test for the empty string; the three indices are read only when the length is at
  least 3.
\<close>

definition extractComponents :: "string \<Rightarrow> js_error + components" where
  "extractComponents d =
     (let text = toString_utf8 (from_base64 d) in
      if \<not> includes_str text CHR ''.'' then Inl invalid_text
      else
        let components = split CHR ''.'' text in
        if length components < 3 \<or>
           (components ! 0 = [] \<or> components ! 1 = [] \<or> components ! 2 = [])
        then Inl invalid_components
        else Inr \<lparr> iv = convertHexToBuffer (components ! 0),
                   auth = convertHexToBuffer (components ! 1),
                   data = convertHexToBuffer (components ! 2) \<rparr>)"

subsection \<open>The runtime the module runs on\<close>

text \<open>
  The cipher and decipher objects of \<^verbatim>\<open>crypto\<close> are mutable; here each
  method takes the object's state and returns the new one with its result. Every
  method may throw. \<^verbatim>\<open>crypto.randomBytes\<close> is the outcome of the one call an
  encryption makes to it. \<^verbatim>\<open>JSON.stringify\<close> returns a string or
  \<^verbatim>\<open>undefined\<close>, and its result goes to \<^verbatim>\<open>cipher.update\<close> as it is.
  \<open>has_setAuthTag\<close> is the test \<^verbatim>\<open>typeof cipher.setAuthTag === 'function'\<close>.
\<close>

record ('c, 'd) platform =
  randomBytes :: "int \<Rightarrow> js_error + buffer"
  createCipheriv :: "string \<Rightarrow> string \<Rightarrow> buffer \<Rightarrow> js_error + 'c"
  cipher_update :: "'c \<Rightarrow> jsval \<Rightarrow> js_error + 'c \<times> buffer"
  cipher_final :: "'c \<Rightarrow> js_error + 'c \<times> buffer"
  getAuthTag :: "'c \<Rightarrow> js_error + buffer"
  createDecipheriv :: "string \<Rightarrow> string \<Rightarrow> buffer \<Rightarrow> js_error + 'd"
  has_setAuthTag :: "'d \<Rightarrow> bool"
  setAuthTag :: "'d \<Rightarrow> buffer \<Rightarrow> js_error + 'd"
  decipher_update :: "'d \<Rightarrow> buffer \<Rightarrow> js_error + 'd \<times> string"
  decipher_final :: "'d \<Rightarrow> js_error + 'd \<times> string"
  JSON_stringify :: "jsval \<Rightarrow> js_error + jsval"
  JSON_parse :: "string \<Rightarrow> js_error + jsval"

subsection \<open>The helpers of the module\<close>

definition ENC_MAX_LEN :: nat where
  "ENC_MAX_LEN = 4093"

definition genIv :: "('c, 'd) platform \<Rightarrow> int \<Rightarrow> js_error + buffer" where
  "genIv P len = randomBytes P len"

definition genCipher :: "('c, 'd) platform \<Rightarrow> string \<Rightarrow> string \<Rightarrow> buffer \<Rightarrow> js_error + 'c" where
  "genCipher P method secret iv0 = createCipheriv P method secret iv0"

definition genDecipher :: "('c, 'd) platform \<Rightarrow> string \<Rightarrow> string \<Rightarrow> buffer \<Rightarrow> js_error + 'd" where
  "genDecipher P method secret iv0 = createDecipheriv P method secret iv0"

text \<open>\<^verbatim>\<open>encryptSession\<close>: stringify, update, final, in this order; the cipher
  comes back in the state that \<^verbatim>\<open>getAuthTag\<close> will see.\<close>

definition encryptSession :: "('c, 'd) platform \<Rightarrow> 'c \<Rightarrow> jsval \<Rightarrow> js_error + 'c \<times> buffer" where
  "encryptSession P cipher d =
     and_then (JSON_stringify P d) (\<lambda>text.
     and_then (cipher_update P cipher text) (\<lambda>(cipher1, b1).
     and_then (cipher_final P cipher1) (\<lambda>(cipher2, b2).
     Inr (cipher2, b1 @ b2))))"

definition compileEncryptString :: "buffer \<Rightarrow> buffer \<Rightarrow> buffer \<Rightarrow> string" where
  "compileEncryptString iv0 auth0 text =
     toString_base64 (from_utf8
       (join CHR ''.'' [toString_hex iv0, toString_hex auth0, toString_hex text]))"

definition decodeToUtf8 :: "('c, 'd) platform \<Rightarrow> 'd \<Rightarrow> buffer \<Rightarrow> js_error + string" where
  "decodeToUtf8 P cipher text =
     and_then (decipher_update P cipher text) (\<lambda>(cipher1, s1).
     and_then (decipher_final P cipher1) (\<lambda>(cipher2, s2).
     Inr (s1 @ s2)))"

text \<open>\<^verbatim>\<open>decodeToJson\<close>: whatever \<^verbatim>\<open>JSON.parse\<close> throws is replaced by the
  module's own error, and a falsy result is answered with the same error.\<close>

definition decodeToJson :: "('c, 'd) platform \<Rightarrow> string \<Rightarrow> js_error + jsval" where
  "decodeToJson P text =
     (case JSON_parse P text of
        Inl e \<Rightarrow> Inl invalid_json
      | Inr json \<Rightarrow>
          if falsy json \<or> \<not> strict_neq json JUndefined then Inl invalid_json
          else Inr json)"

text \<open>
  The options object. A field that is not there is \<open>None\<close>; the options argument
  itself may be left out. \<^verbatim>\<open>!opts.algo\<close> holds of a missing field and of the
  empty string, \<^verbatim>\<open>!opts.ivlen\<close> of a missing field and of \<open>0\<close>.
\<close>

record opts =
  algo :: "string option"
  ivlen :: "int option"
  secret :: "string option"

definition not_string :: "string option \<Rightarrow> bool" where
  "not_string x = (x = None \<or> x = Some [])"

definition not_number :: "int option \<Rightarrow> bool" where
  "not_number x = (x = None \<or> x = Some 0)"

definition assertOptsExist :: "opts option \<Rightarrow> js_error + bool" where
  "assertOptsExist os =
     (case os of
        None \<Rightarrow> Inl opts_required
      | Some cfg \<Rightarrow>
          if not_string (algo cfg) \<or> not_number (ivlen cfg) \<or> not_string (secret cfg)
          then Inl opts_required
          else Inr True)"

text \<open>
  \<^verbatim>\<open>getCipherAuthTag\<close>. \<^verbatim>\<open>indexOf\<close> returns a number, which the source
  compares with the boolean \<^verbatim>\<open>false\<close> by \<^verbatim>\<open>!==\<close>.
\<close>

definition getCipherAuthTag :: "('c, 'd) platform \<Rightarrow> 'c \<Rightarrow> string \<Rightarrow> js_error + buffer" where
  "getCipherAuthTag P cipher method =
     (if strict_neq (JNum (of_int (indexOf (toLowerCase method) ''gcm''))) (JBool False) \<or>
         strict_neq (JNum (of_int (indexOf (toLowerCase method) ''ccm''))) (JBool False) \<or>
         strict_neq (JNum (of_int (indexOf (toLowerCase method) ''ocb''))) (JBool False)
      then getAuthTag P cipher
      else Inr [])"

subsection \<open>encryptData and decryptData\<close>

text \<open>After \<^verbatim>\<open>assertOptsExist\<close> has passed, the three fields are there, and
  \<open>the\<close> reads them.\<close>

definition encryptData :: "('c, 'd) platform \<Rightarrow> jsval \<Rightarrow> opts option \<Rightarrow> js_error + string" where
  "encryptData P d os =
     (if strict_neq d (Object d) then Inl invalid_session
      else
        and_then (assertOptsExist os) (\<lambda>_.
        let cfg = the os in
        and_then (genIv P (the (ivlen cfg))) (\<lambda>iv0.
        and_then (genCipher P (the (algo cfg)) (the (secret cfg)) iv0) (\<lambda>cipher.
        and_then (encryptSession P cipher d) (\<lambda>(cipher1, encSession).
        and_then (getCipherAuthTag P cipher1 (the (algo cfg))) (\<lambda>tag.
        let encText = compileEncryptString iv0 tag encSession in
        if byteLength encText > ENC_MAX_LEN then Inl max_length_exceeded
        else Inr encText))))))"

definition decryptData :: "('c, 'd) platform \<Rightarrow> string \<Rightarrow> opts option \<Rightarrow> js_error + jsval" where
  "decryptData P text os =
     (if text = [] \<or> byteLength text < 1 then Inl invalid_cookie
      else
        and_then (assertOptsExist os) (\<lambda>_.
        let cfg = the os in
        and_then (extractComponents text) (\<lambda>components.
        and_then (genDecipher P (the (algo cfg)) (the (secret cfg)) (iv components)) (\<lambda>cipher.
        and_then (if 0 < length (auth components) \<and> has_setAuthTag P cipher
                  then setAuthTag P cipher (auth components)
                  else Inr cipher) (\<lambda>cipher1.
        and_then (decodeToUtf8 P cipher1 (data components)) (\<lambda>s.
        decodeToJson P s))))))"

subsection \<open>Notions used in the statements\<close>

text \<open>The primitive values: \<^verbatim>\<open>undefined\<close>, \<^verbatim>\<open>null\<close>, booleans, numbers and
  strings. Everything else is an object.\<close>

fun is_primitive :: "jsval \<Rightarrow> bool" where
  "is_primitive JUndefined = True"
| "is_primitive JNull = True"
| "is_primitive (JBool b) = True"
| "is_primitive (JNum n) = True"
| "is_primitive (JStr s) = True"
| "is_primitive v = False"

text \<open>Options that lack something: the argument was left out, or one of the three
  fields is missing or falsy.\<close>

definition incomplete :: "opts option \<Rightarrow> bool" where
  "incomplete os =
     (case os of
        None \<Rightarrow> True
      | Some cfg \<Rightarrow> not_string (algo cfg) \<or> not_number (ivlen cfg) \<or> not_string (secret cfg))"

text \<open>The text that \<^verbatim>\<open>extractComponents\<close> splits, and its pieces.\<close>

definition frame_text :: "string \<Rightarrow> string" where
  "frame_text d = toString_utf8 (from_base64 d)"

definition frame_parts :: "string \<Rightarrow> string list" where
  "frame_parts d = split CHR ''.'' (frame_text d)"

text \<open>A string whose first two characters are hex digits; \<^verbatim>\<open>Buffer.from(s, 'hex')\<close>
  stops in front of any other string.\<close>

fun starts_with_hex_pair :: "string \<Rightarrow> bool" where
  "starts_with_hex_pair (c # d # rest) = (hex_value c \<noteq> None \<and> hex_value d \<noteq> None)"
| "starts_with_hex_pair _ = False"

text \<open>Text whose characters are all ASCII (codes below 128).\<close>

definition ascii_text :: "string \<Rightarrow> bool" where
  "ascii_text s = list_all (\<lambda>c. (of_char c :: nat) < 128) s"

text \<open>The characters that \<^verbatim>\<open>Buffer.from(s, 'base64')\<close> does not skip.\<close>

definition base64_relevant :: "char \<Rightarrow> bool" where
  "base64_relevant c = (base64_value c \<noteq> None \<or> c = CHR ''='')"

subsection \<open>What is assumed of the runtime\<close>

text \<open>
  Two statements below are about what the module does when Node's libraries behave as
  documented. For encryption:
  \<^item> \<^verbatim>\<open>randomBytes(n)\<close>, when it returns, returns \<open>n\<close> bytes;
  \<^item> a string returned by \<^verbatim>\<open>JSON.stringify\<close> is not empty;
  \<^item> \<^verbatim>\<open>cipher.update\<close> throws unless it is given a string (the only other
    value \<^verbatim>\<open>JSON.stringify\<close> returns is \<^verbatim>\<open>undefined\<close>);
  \<^item> the ciphertext of a non-empty text is not empty.
\<close>

definition encrypts_like_node :: "('c, 'd) platform \<Rightarrow> bool" where
  "encrypts_like_node P \<longleftrightarrow>
     (\<forall>n b. randomBytes P n = Inr b \<longrightarrow> int (length b) = n) \<and>
     (\<forall>v s. JSON_stringify P v = Inr (JStr s) \<longrightarrow> s \<noteq> []) \<and>
     (\<forall>c v r. cipher_update P c v = Inr r \<longrightarrow> (\<exists>s. v = JStr s)) \<and>
     (\<forall>c s c1 b1 c2 b2. s \<noteq> [] \<longrightarrow> cipher_update P c (JStr s) = Inr (c1, b1) \<longrightarrow>
        cipher_final P c1 = Inr (c2, b2) \<longrightarrow> b1 @ b2 \<noteq> [])"

text \<open>
  For decryption:
  \<^item> an authentication tag, when \<^verbatim>\<open>getAuthTag\<close> returns one, is not empty;
  \<^item> a decipher made with the same algorithm, key and initialization vector, given the
    tag of the cipher, returns the text that the cipher was given.
\<close>

definition decrypts_like_node :: "('c, 'd) platform \<Rightarrow> bool" where
  "decrypts_like_node P \<longleftrightarrow>
     (\<forall>c tag. getAuthTag P c = Inr tag \<longrightarrow> tag \<noteq> []) \<and>
     (\<forall>m k i s c0 c1 b1 c2 b2 tag.
        createCipheriv P m k i = Inr c0 \<longrightarrow> cipher_update P c0 (JStr s) = Inr (c1, b1) \<longrightarrow>
        cipher_final P c1 = Inr (c2, b2) \<longrightarrow> getAuthTag P c2 = Inr tag \<longrightarrow>
        (\<exists>d0 d1 d2 d3 s1 s2.
           createDecipheriv P m k i = Inr d0 \<and> has_setAuthTag P d0 \<and>
           setAuthTag P d0 tag = Inr d1 \<and> decipher_update P d1 (b1 @ b2) = Inr (d2, s1) \<and>
           decipher_final P d2 = Inr (d3, s2) \<and> s1 @ s2 = s))"

subsection \<open>A small runtime to run the module on\<close>

text \<open>
  A stand-in for the libraries, on which the functions above can be evaluated. Its
  cipher adds one to every byte and counts the bytes; for an algorithm whose name
  holds \<open>gcm\<close>, \<open>ccm\<close> or \<open>ocb\<close> the one-byte tag is that count, and
  \<^verbatim>\<open>getAuthTag\<close> throws for every other algorithm, as Node's does. Its decipher
  subtracts one and compares the count with the tag. Its JSON knows \<^verbatim>\<open>null\<close>,
  the booleans (a wrapped boolean is written as the boolean it wraps, a property whose
  value is \<^verbatim>\<open>undefined\<close> is left out), the empty array and the empty object.
\<close>

record demo_cipher =
  c_aead :: bool
  c_final :: bool
  c_count :: nat

record demo_decipher =
  d_aead :: bool
  d_tag :: "buffer option"
  d_count :: nat

definition demo_aead :: "string \<Rightarrow> bool" where
  "demo_aead method \<longleftrightarrow>
     0 \<le> indexOf (toLowerCase method) ''gcm'' \<or>
     0 \<le> indexOf (toLowerCase method) ''ccm'' \<or>
     0 \<le> indexOf (toLowerCase method) ''ocb''"

fun demo_stringify :: "jsval \<Rightarrow> js_error + jsval" where
  "demo_stringify JUndefined = Inr JUndefined"
| "demo_stringify JNull = Inr (JStr ''null'')"
| "demo_stringify (JBool b) = Inr (JStr (if b then ''true'' else ''false''))"
| "demo_stringify (JWrapper (JBool b)) = Inr (JStr (if b then ''true'' else ''false''))"
| "demo_stringify (JArr []) = Inr (JStr ''[]'')"
| "demo_stringify (JObj []) = Inr (JStr ''{}'')"
| "demo_stringify (JObj [(k, JUndefined)]) = Inr (JStr ''{}'')"
| "demo_stringify v = Inl (Thrown TypeError ''Do not know how to serialize this value'')"

definition demo_parse :: "string \<Rightarrow> js_error + jsval" where
  "demo_parse s =
     (if s = ''null'' then Inr JNull
      else if s = ''true'' then Inr (JBool True)
      else if s = ''false'' then Inr (JBool False)
      else if s = ''[]'' then Inr (JArr [])
      else if s = ''{}'' then Inr (JObj [])
      else Inl (Thrown SyntaxError ''Unexpected token in JSON''))"

definition demo :: "(demo_cipher, demo_decipher) platform" where
  "demo = \<lparr>
     randomBytes = (\<lambda>n. if n < 0 then Inl (Thrown RangeError ''The value of size is out of range'')
                         else Inr (replicate (nat n) 7)),
     createCipheriv = (\<lambda>method key iv0.
        Inr \<lparr> c_aead = demo_aead method, c_final = False, c_count = 0 \<rparr>),
     cipher_update = (\<lambda>c v. case v of
          JStr s \<Rightarrow> Inr (c \<lparr> c_count := c_count c + length s \<rparr>, map (\<lambda>b. b + 1) (from_utf8 s))
        | _ \<Rightarrow> Inl (Thrown TypeError ''The data argument must be of type string'')),
     cipher_final = (\<lambda>c. Inr (c \<lparr> c_final := True \<rparr>, [])),
     getAuthTag = (\<lambda>c. if c_aead c \<and> c_final c then Inr [of_nat (c_count c)]
                        else Inl (Thrown Error ''Invalid state for operation getAuthTag'')),
     createDecipheriv = (\<lambda>method key iv0.
        Inr \<lparr> d_aead = demo_aead method, d_tag = None, d_count = 0 \<rparr>),
     has_setAuthTag = (\<lambda>d. True),
     setAuthTag = (\<lambda>d tag. Inr (d \<lparr> d_tag := Some tag \<rparr>)),
     decipher_update = (\<lambda>d bs.
        Inr (d \<lparr> d_count := d_count d + length bs \<rparr>, toString_utf8 (map (\<lambda>b. b - 1) bs))),
     decipher_final = (\<lambda>d.
        if d_aead d \<and> d_tag d \<noteq> Some [of_nat (d_count d)]
        then Inl (Thrown Error ''Unsupported state or unable to authenticate data'')
        else Inr (d, [])),
     JSON_stringify = demo_stringify,
     JSON_parse = demo_parse \<rparr>"

definition gcm_opts :: "opts option" where
  "gcm_opts = Some \<lparr> algo = Some ''aes-256-gcm'', ivlen = Some 12,
                     secret = Some ''0123456789abcdef0123456789abcdef'' \<rparr>"

definition cbc_opts :: "opts option" where
  "cbc_opts = Some \<lparr> algo = Some ''aes-256-cbc'', ivlen = Some 16,
                     secret = Some ''0123456789abcdef0123456789abcdef'' \<rparr>"

section \<open>Properties\<close>

subsection \<open>Sequencing, values and options\<close>

lemma and_then_Inl: "and_then (Inl e) f = Inl e"
  by (simp add: and_then_def)

lemma and_then_Inr: "and_then (Inr x) f = f x"
  by (simp add: and_then_def)

lemma strict_neq_Object: "strict_neq d (Object d) \<longleftrightarrow> is_primitive d"
  by (cases d) (simp_all add: strict_neq_def)

lemma primitive_or_truthy: "\<not> is_primitive d \<Longrightarrow> \<not> falsy d"
  by (cases d) simp_all

lemma assertOptsExist_incomplete: "incomplete os \<Longrightarrow> assertOptsExist os = Inl opts_required"
  by (cases os) (simp_all add: incomplete_def assertOptsExist_def)

lemma assertOptsExist_complete: "\<not> incomplete os \<Longrightarrow> assertOptsExist os = Inr True"
  by (cases os) (simp_all add: incomplete_def assertOptsExist_def)

lemma byteLength_length: "byteLength s = length s"
  by (simp add: byteLength_def from_utf8_def)

lemma errors_distinct:
  "invalid_session \<noteq> opts_required" "invalid_cookie \<noteq> opts_required"
  "invalid_text \<noteq> invalid_components" "invalid_json \<noteq> invalid_text"
  by (simp_all add: invalid_session_def opts_required_def invalid_cookie_def
      invalid_text_def invalid_components_def invalid_json_def)

subsection \<open>Checks that come first\<close>

text \<open>
  Claim C8. For every options argument, \<^verbatim>\<open>encryptData\<close> throws its
  \<^verbatim>\<open>TypeError\<close> "Session data is invalid, cannot encrypt" when the session data
  is \<^verbatim>\<open>null\<close> or another primitive, a string for one, and
  \<^verbatim>\<open>decryptData\<close> throws its \<^verbatim>\<open>Error\<close> "Cannot read encrypted cookie,
  invalid data" when the text is empty. Neither result depends on the runtime or on
  the options: the checks come before the options are looked at and before any cipher
  is made.
\<close>

theorem primitive_data_and_empty_text_rejected:
  "(is_primitive d \<longrightarrow> encryptData P d os = Inl invalid_session) \<and>
   decryptData P [] os = Inl invalid_cookie"
  by (simp add: encryptData_def decryptData_def strict_neq_Object)

theorem primitive_data_and_empty_text_rejected_witness:
  "encryptData demo JNull gcm_opts = Inl invalid_session \<and>
   encryptData demo (JStr ''a string'') None = Inl invalid_session \<and>
   decryptData demo [] gcm_opts = Inl invalid_cookie"
  using primitive_data_and_empty_text_rejected [of JNull demo gcm_opts]
    primitive_data_and_empty_text_rejected [of "JStr ''a string''" demo None]
  by simp

subsection \<open>Incomplete options\<close>

text \<open>
  Claim C7, as amended. When the options are left out, or one of \<open>algo\<close>,
  \<open>ivlen\<close>, \<open>secret\<close> is missing (or falsy), \<^verbatim>\<open>encryptData\<close> throws the
  \<^verbatim>\<open>Error\<close> of \<^verbatim>\<open>assertOptsExist\<close> for every session data that is an object,
  and \<^verbatim>\<open>decryptData\<close> throws it for every text that is not empty, whatever else the
  data or the text is like and whatever the runtime does. For primitive data and for
  the empty text the earlier check answers first, with its own error. Both calls fail
  in every case.
\<close>

theorem incomplete_opts_rejected:
  "incomplete os \<longrightarrow>
     encryptData P d os = (if is_primitive d then Inl invalid_session else Inl opts_required) \<and>
     decryptData P text os = (if text = [] then Inl invalid_cookie else Inl opts_required)"
  by (simp add: encryptData_def decryptData_def strict_neq_Object byteLength_length
      assertOptsExist_incomplete and_then_Inl)

theorem incomplete_opts_rejected_witness:
  "incomplete (Some \<lparr> algo = Some ''aes-256-gcm'', ivlen = None, secret = Some ''key'' \<rparr>) \<and>
   encryptData demo (JObj []) (Some \<lparr> algo = Some ''aes-256-gcm'', ivlen = None, secret = Some ''key'' \<rparr>)
     = Inl opts_required \<and>
   decryptData demo ''YWJj'' (Some \<lparr> algo = Some ''aes-256-gcm'', ivlen = None, secret = Some ''key'' \<rparr>)
     = Inl opts_required \<and>
   encryptData demo (JObj []) None = Inl opts_required \<and>
   decryptData demo ''YWJj'' None = Inl opts_required"
  using incomplete_opts_rejected
      [of "Some \<lparr> algo = Some ''aes-256-gcm'', ivlen = None, secret = Some ''key'' \<rparr>" demo "JObj []" "''YWJj''"]
    incomplete_opts_rejected [of None demo "JObj []" "''YWJj''"]
  by (simp add: incomplete_def not_number_def)

text \<open>
  Claim C7 as it was stated has both calls throw the error of the options whatever the
  data and the text. With the data \<^verbatim>\<open>null\<close>, or with the empty text, and no
  options at all, the error is the one of the earlier check.
\<close>

theorem incomplete_opts_counterexample:
  "incomplete None \<and>
   encryptData demo JNull None = Inl invalid_session \<and> invalid_session \<noteq> opts_required \<and>
   decryptData demo [] None = Inl invalid_cookie \<and> invalid_cookie \<noteq> opts_required"
  by (simp add: incomplete_def encryptData_def decryptData_def strict_neq_def errors_distinct)

subsection \<open>Deserialization\<close>

text \<open>
  Claim C9. \<^verbatim>\<open>decodeToJson\<close> throws its \<^verbatim>\<open>EvalError\<close> "Cannot convert decoded
  cookie string to valid JSON" exactly when \<^verbatim>\<open>JSON.parse\<close> throws or returns a
  falsy value (\<^verbatim>\<open>null\<close>, \<^verbatim>\<open>false\<close>, \<^verbatim>\<open>0\<close>, the empty string;
  \<^verbatim>\<open>undefined\<close> would be one too). In every other case it returns the parsed
  value, so a falsy value is never returned. An object or an array without entries is
  not falsy.
\<close>

theorem decodeToJson_fails_iff:
  "(decodeToJson P text = Inl invalid_json \<longleftrightarrow>
      (\<exists>e. JSON_parse P text = Inl e) \<or> (\<exists>v. JSON_parse P text = Inr v \<and> falsy v)) \<and>
   (\<forall>v. decodeToJson P text = Inr v \<longrightarrow> JSON_parse P text = Inr v \<and> \<not> falsy v) \<and>
   (\<forall>e. decodeToJson P text = Inl e \<longrightarrow> e = invalid_json)"
  by (cases "JSON_parse P text") (auto simp add: decodeToJson_def strict_neq_def)

theorem decodeToJson_fails_iff_witness:
  "JSON_parse demo ''null'' = Inr JNull \<and> falsy JNull \<and>
   decodeToJson demo ''null'' = Inl invalid_json \<and>
   decodeToJson demo ''{}'' = Inr (JObj []) \<and>
   decodeToJson demo ''{'' = Inl invalid_json"
  using decodeToJson_fails_iff [of demo "''null''"] decodeToJson_fails_iff [of demo "''{''"]
  by (simp add: demo_def demo_parse_def decodeToJson_def strict_neq_def)

subsection \<open>The authentication tag\<close>

text \<open>
  Claim C2. The claim has the tag taken from the cipher only for an algorithm whose
  name holds \<open>gcm\<close>, \<open>ccm\<close> or \<open>ocb\<close>, and an empty buffer for every other. The
  source compares the number returned by \<^verbatim>\<open>indexOf\<close> with \<^verbatim>\<open>false\<close>; a
  number is never strictly equal to a boolean, so the condition holds for every name and
  \<^verbatim>\<open>getCipherAuthTag\<close> is \<^verbatim>\<open>cipher.getAuthTag()\<close> whatever the algorithm, for
  \<open>aes-256-cbc\<close> too, in whose name \<^verbatim>\<open>indexOf\<close> finds none of the three.
\<close>

theorem getCipherAuthTag_for_every_method:
  "getCipherAuthTag P cipher method = getAuthTag P cipher \<and>
   indexOf (toLowerCase ''aes-256-cbc'') ''gcm'' = - 1 \<and>
   indexOf (toLowerCase ''aes-256-cbc'') ''ccm'' = - 1 \<and>
   indexOf (toLowerCase ''aes-256-cbc'') ''ocb'' = - 1 \<and>
   getCipherAuthTag P cipher ''aes-256-cbc'' = getAuthTag P cipher"
proof -
  have "getCipherAuthTag P cipher m = getAuthTag P cipher" for m
    by (simp add: getCipherAuthTag_def strict_neq_def)
  moreover have "indexOf (toLowerCase ''aes-256-cbc'') ''gcm'' = - 1"
    "indexOf (toLowerCase ''aes-256-cbc'') ''ccm'' = - 1"
    "indexOf (toLowerCase ''aes-256-cbc'') ''ocb'' = - 1"
    by code_simp+
  ultimately show ?thesis by simp
qed

subsection \<open>Hex, utf8 and base64 conversions\<close>

lemma unat_byte_less: "unat (b :: byte) < 256"
  using unsigned_less [of b, where ?'a = nat] by simp

lemma hex_value_digit: "n < 16 \<Longrightarrow> hex_value (hex_digit n) = Some n"
  by (auto simp add: hex_value_def hex_digit_def Let_def)

lemma hex_digit_not_dot: "n < 16 \<Longrightarrow> hex_digit n \<noteq> CHR ''.''"
proof
  assume "n < 16" and "hex_digit n = CHR ''.''"
  then have "hex_value CHR ''.'' = Some n" using hex_value_digit [of n] by simp
  then show False by (simp add: hex_value_def)
qed

lemma toString_hex_Nil: "toString_hex [] = []"
  by (simp add: toString_hex_def)

lemma toString_hex_Cons:
  "toString_hex (b # bs) = hex_digit (unat b div 16) # hex_digit (unat b mod 16) # toString_hex bs"
  by (simp add: toString_hex_def)

lemma from_hex_junk: "\<not> starts_with_hex_pair junk \<Longrightarrow> from_hex junk = []"
  by (induction junk rule: starts_with_hex_pair.induct) (auto split: option.splits)

text \<open>Decoding stops in front of whatever follows the digits, and gives back the
  bytes that were written.\<close>

lemma from_hex_toString_hex_junk:
  "\<not> starts_with_hex_pair junk \<Longrightarrow> from_hex (toString_hex bs @ junk) = bs"
proof (induction bs)
  case Nil
  then show ?case by (simp add: toString_hex_Nil from_hex_junk)
next
  case (Cons b bs)
  have d: "unat b div 16 < 16" using unat_byte_less [of b] by simp
  have m: "unat b mod 16 < 16" by simp
  have "(of_nat (16 * (unat b div 16) + unat b mod 16) :: byte) = b" by simp
  with Cons show ?case
    using hex_value_digit [OF d] hex_value_digit [OF m]
    by (simp add: toString_hex_Cons)
qed

lemma from_hex_toString_hex: "from_hex (toString_hex bs) = bs"
  using from_hex_toString_hex_junk [of "[]" bs] by simp

lemma toString_hex_no_dot: "CHR ''.'' \<notin> set (toString_hex bs)"
proof (induction bs)
  case Nil
  show ?case by (simp add: toString_hex_Nil)
next
  case (Cons b bs)
  have d: "unat b div 16 < 16" using unat_byte_less [of b] by simp
  have m: "unat b mod 16 < 16" by simp
  from Cons show ?case
    using hex_digit_not_dot [OF d] hex_digit_not_dot [OF m]
    by (simp add: toString_hex_Cons)
qed

lemma toString_hex_empty: "toString_hex bs = [] \<longleftrightarrow> bs = []"
  by (cases bs) (simp_all add: toString_hex_Nil toString_hex_Cons)

lemma length_toString_hex: "length (toString_hex bs) = 2 * length bs"
  by (induction bs) (simp_all add: toString_hex_Nil toString_hex_Cons)

lemma byte_to_char_to_byte: "byte_to_char (char_to_byte c) = c"
proof -
  have "(of_char c :: nat) < 256" by simp
  then have "unat (of_nat (of_char c) :: byte) = of_char c"
    by (simp add: unat_of_nat)
  then show ?thesis by (simp add: byte_to_char_def char_to_byte_def)
qed

lemma toString_utf8_from_utf8: "toString_utf8 (from_utf8 s) = s"
  by (induction s) (simp_all add: toString_utf8_def from_utf8_def byte_to_char_to_byte)

lemma base64_value_char: "n < 64 \<Longrightarrow> base64_value (base64_char n) = Some n"
  by (auto simp add: base64_value_def base64_char_def Let_def)

lemma base64_char_not_pad: "n < 64 \<Longrightarrow> base64_char n \<noteq> CHR ''=''"
proof
  assume "n < 64" and "base64_char n = CHR ''=''"
  then have "base64_value CHR ''='' = Some n" using base64_value_char [of n] by simp
  then show False by (simp add: base64_value_def)
qed

lemma base64_digits_Cons:
  "n < 64 \<Longrightarrow> base64_digits (base64_char n # s) = n # base64_digits s"
  by (simp add: base64_digits_def map_filter_simps base64_value_char base64_char_not_pad)

lemma base64_digits_pad: "base64_digits (CHR ''='' # s) = []"
  by (simp add: base64_digits_def map_filter_simps)

lemma base64_digits_Nil: "base64_digits [] = []"
  by (simp add: base64_digits_def map_filter_simps)

lemma digit_bounds:
  fixes a b c :: byte
  shows "unat a div 4 < 64" "unat a mod 4 * 16 + unat b div 16 < 64"
    "unat b mod 16 * 4 + unat c div 64 < 64" "unat c mod 64 < 64"
    "unat a mod 4 * 16 < 64" "unat b mod 16 * 4 < 64"
proof -
  have la: "unat a < 256" and lb: "unat b < 256" and lc: "unat c < 256"
    by (rule unat_byte_less)+
  show "unat a div 4 < 64" using la by simp
  have "unat a mod 4 < 4" "unat b div 16 < 16" using lb by simp_all
  then show "unat a mod 4 * 16 + unat b div 16 < 64" by linarith
  have "unat b mod 16 < 16" "unat c div 64 < 4" using lc by simp_all
  then show "unat b mod 16 * 4 + unat c div 64 < 64" by linarith
  show "unat c mod 64 < 64" by simp
  have "unat a mod 4 < 4" by simp
  then show "unat a mod 4 * 16 < 64" by linarith
  have "unat b mod 16 < 16" by simp
  then show "unat b mod 16 * 4 < 64" by linarith
qed

lemma pack_div: "k < m \<Longrightarrow> (x * m + k) div m = (x::nat)"
  by simp

lemma pack_mod: "k < m \<Longrightarrow> (x * m + k) mod m = (k::nat)"
  by simp

lemma regroup1:
  fixes a b :: byte
  shows "(of_nat (unat a div 4 * 4 + (unat a mod 4 * 16 + unat b div 16) div 16) :: byte) = a"
proof -
  have "unat b div 16 < 16" using unat_byte_less [of b] by simp
  then have "(unat a mod 4 * 16 + unat b div 16) div 16 = unat a mod 4" by (rule pack_div)
  then have "unat a div 4 * 4 + (unat a mod 4 * 16 + unat b div 16) div 16 = unat a" by simp
  then show ?thesis by simp
qed

lemma regroup2:
  fixes a b c :: byte
  shows "(of_nat ((unat a mod 4 * 16 + unat b div 16) mod 16 * 16
        + (unat b mod 16 * 4 + unat c div 64) div 4) :: byte) = b"
proof -
  have "unat b div 16 < 16" using unat_byte_less [of b] by simp
  then have 1: "(unat a mod 4 * 16 + unat b div 16) mod 16 = unat b div 16" by (rule pack_mod)
  have "unat c div 64 < 4" using unat_byte_less [of c] by simp
  then have 2: "(unat b mod 16 * 4 + unat c div 64) div 4 = unat b mod 16" by (rule pack_div)
  have "(unat a mod 4 * 16 + unat b div 16) mod 16 * 16
        + (unat b mod 16 * 4 + unat c div 64) div 4 = unat b"
    unfolding 1 2 by simp
  then show ?thesis by simp
qed

lemma regroup3:
  fixes b c :: byte
  shows "(of_nat ((unat b mod 16 * 4 + unat c div 64) mod 4 * 64 + unat c mod 64) :: byte) = c"
proof -
  have "unat c div 64 < 4" using unat_byte_less [of c] by simp
  then have "(unat b mod 16 * 4 + unat c div 64) mod 4 = unat c div 64" by (rule pack_mod)
  then have "(unat b mod 16 * 4 + unat c div 64) mod 4 * 64 + unat c mod 64 = unat c" by simp
  then show ?thesis by simp
qed

lemma regroup1_last:
  fixes a :: byte
  shows "(of_nat (unat a div 4 * 4 + (unat a mod 4 * 16) div 16) :: byte) = a"
  using regroup1 [of a 0] by simp

lemma regroup2_last:
  fixes a b :: byte
  shows "(of_nat ((unat a mod 4 * 16 + unat b div 16) mod 16 * 16 + (unat b mod 16 * 4) div 4) :: byte) = b"
  using regroup2 [of a b 0] by simp

text \<open>Decoding the base64 text of a buffer gives the buffer back.\<close>

lemma from_base64_toString_base64: "from_base64 (toString_base64 bs) = bs"
proof -
  have "from_digits (base64_digits (toString_base64 bs)) = bs"
  proof (induction bs rule: toString_base64.induct)
    case 1
    show ?case by (simp add: base64_digits_Nil)
  next
    case (2 a)
    show ?case
      using regroup1_last [of a]
      by (simp add: base64_digits_Cons base64_digits_pad digit_bounds)
  next
    case (3 a b)
    show ?case
      using regroup1 [of a b] regroup2_last [of a b]
      by (simp add: base64_digits_Cons base64_digits_pad digit_bounds)
  next
    case (4 a b c rest)
    then show ?case
      using regroup1 [of a b] regroup2 [of a b c] regroup3 [of b c]
      by (simp add: base64_digits_Cons digit_bounds)
  qed
  then show ?thesis by (simp add: from_base64_def)
qed

lemma length_toString_base64: "length (toString_base64 bs) = 4 * ((length bs + 2) div 3)"
proof (induction bs rule: toString_base64.induct)
  case (4 a b c rest)
  have "(length (a # b # c # rest) + 2) div 3 = Suc ((length rest + 2) div 3)" by simp
  with 4 show ?case by simp
qed simp_all

text \<open>Characters outside the alphabet make no difference to the decoder.\<close>

lemma base64_digits_filter: "base64_digits (filter base64_relevant s) = base64_digits s"
  by (induction s) (auto simp add: base64_digits_def map_filter_simps base64_relevant_def)

lemma from_base64_filter: "from_base64 (filter base64_relevant s) = from_base64 s"
  by (simp add: from_base64_def base64_digits_filter)

subsection \<open>Splitting\<close>

lemma split_not_Nil: "split sep s \<noteq> []"
  by (induction s) (auto split: list.splits)

lemma split_no_sep: "sep \<notin> set w \<Longrightarrow> split sep w = [w]"
  by (induction w) auto

lemma split_append: "sep \<notin> set w \<Longrightarrow> split sep (w @ sep # rest) = w # split sep rest"
  by (induction w) auto

lemma length_split: "length (split sep s) = Suc (count_list s sep)"
  by (induction s) (auto split: list.splits simp add: split_not_Nil)

lemma three_parts_have_sep: "3 \<le> length (split sep s) \<Longrightarrow> sep \<in> set s"
proof (rule ccontr)
  assume "3 \<le> length (split sep s)" and "sep \<notin> set s"
  then show False using split_no_sep [of sep s] by simp
qed

lemma split_three:
  "sep \<notin> set u \<Longrightarrow> sep \<notin> set v \<Longrightarrow> sep \<notin> set w \<Longrightarrow>
   split sep (u @ sep # v @ sep # w) = [u, v, w]"
  by (simp add: split_append split_no_sep)

subsection \<open>The frame parser\<close>

lemma extractComponents_unfold:
  "extractComponents d =
     (if CHR ''.'' \<notin> set (frame_text d) then Inl invalid_text
      else if length (frame_parts d) < 3 \<or> frame_parts d ! 0 = [] \<or>
              frame_parts d ! 1 = [] \<or> frame_parts d ! 2 = []
      then Inl invalid_components
      else Inr \<lparr> iv = from_hex (frame_parts d ! 0), auth = from_hex (frame_parts d ! 1),
                 data = from_hex (frame_parts d ! 2) \<rparr>)"
  by (simp add: extractComponents_def frame_text_def frame_parts_def includes_str_def
      convertHexToBuffer_def Let_def)

lemma frame_parts_have_dot: "3 \<le> length (frame_parts d) \<Longrightarrow> CHR ''.'' \<in> set (frame_text d)"
  unfolding frame_parts_def by (rule three_parts_have_sep)

lemma decryptData_parse_error:
  assumes "d \<noteq> []" and "\<not> incomplete os" and "extractComponents d = Inl e"
  shows "decryptData P d os = Inl e"
  using assms
  by (simp add: decryptData_def byteLength_length assertOptsExist_complete and_then_Inr and_then_Inl)

text \<open>
  Claim C4. When the base64-decoded text has no \<open>.\<close>, \<^verbatim>\<open>extractComponents\<close>
  throws its \<^verbatim>\<open>EvalError\<close>; when the text splits into fewer than three pieces, or
  one of the first three pieces is empty, it throws its \<^verbatim>\<open>RangeError\<close>. No frame
  is returned in either case, and \<^verbatim>\<open>decryptData\<close>, once its own two checks (text
  not empty, options complete) have passed, ends with the same error whatever the
  runtime. The base64 text of \<open>abc\<close>, which is \<open>YWJj\<close>, is refused in this way.
\<close>

theorem malformed_frame_rejected:
  assumes "CHR ''.'' \<notin> set (frame_text d) \<or> length (frame_parts d) < 3 \<or>
           frame_parts d ! 0 = [] \<or> frame_parts d ! 1 = [] \<or> frame_parts d ! 2 = []"
  shows "extractComponents d =
           Inl (if CHR ''.'' \<in> set (frame_text d) then invalid_components else invalid_text) \<and>
         (d \<noteq> [] \<and> \<not> incomplete os \<longrightarrow>
          decryptData P d os =
           Inl (if CHR ''.'' \<in> set (frame_text d) then invalid_components else invalid_text))"
proof -
  have "extractComponents d =
      Inl (if CHR ''.'' \<in> set (frame_text d) then invalid_components else invalid_text)"
    using assms by (auto simp add: extractComponents_unfold)
  then show ?thesis by (simp add: decryptData_parse_error)
qed

theorem malformed_frame_rejected_witness:
  "toString_base64 (from_utf8 ''abc'') = ''YWJj'' \<and> frame_text ''YWJj'' = ''abc'' \<and>
   extractComponents ''YWJj'' = Inl invalid_text \<and>
   decryptData demo ''YWJj'' gcm_opts = Inl invalid_text"
proof -
  have enc: "toString_base64 (from_utf8 ''abc'') = ''YWJj''" by code_simp
  have dec: "frame_text ''YWJj'' = ''abc''" by code_simp
  have complete: "\<not> incomplete gcm_opts"
    by (simp add: incomplete_def gcm_opts_def not_string_def not_number_def)
  show ?thesis
    using malformed_frame_rejected [of "''YWJj''" gcm_opts demo] enc dec complete by simp
qed

text \<open>When the parser returns a frame and when it does not.\<close>

lemma extractComponents_accepts_iff:
  "(\<exists>f. extractComponents d = Inr f) \<longleftrightarrow>
     3 \<le> length (frame_parts d) \<and> frame_parts d ! 0 \<noteq> [] \<and>
     frame_parts d ! 1 \<noteq> [] \<and> frame_parts d ! 2 \<noteq> []"
proof -
  have "CHR ''.'' \<in> set (frame_text d)" if "3 \<le> length (frame_parts d)"
    using that by (rule frame_parts_have_dot)
  then show ?thesis by (auto simp add: extractComponents_unfold)
qed

text \<open>
  Claim C5, as amended. The parser checks neither the base64 text nor the hex digits.
  Characters outside the base64 alphabet are skipped: taking them out of the input
  changes nothing. In ASCII text, each piece is decoded up to the first pair of
  characters that is not two hex digits, and what follows is dropped without an error:
  when the decoded text is the hex of three buffers, each followed by ASCII characters
  that have no \<open>.\<close> among them and do not begin with two hex digits, and the three
  pieces are not empty, the parser returns those three buffers. The only errors of the
  parser are the two of the structure, for a missing \<open>.\<close> and for the number of
  pieces. (What is decoded from a piece with characters outside ASCII is not stated;
  no error is thrown there either.)
\<close>

theorem extractComponents_lenient:
  "extractComponents (filter base64_relevant d) = extractComponents d \<and>
   (\<forall>e. extractComponents d = Inl e \<longrightarrow> e = invalid_text \<or> e = invalid_components) \<and>
   (frame_text d = toString_hex i @ j1 @ ''.'' @ toString_hex a @ j2 @ ''.'' @ toString_hex c @ j3 \<longrightarrow>
    ascii_text (j1 @ j2 @ j3) \<longrightarrow> CHR ''.'' \<notin> set (j1 @ j2 @ j3) \<longrightarrow>
    \<not> starts_with_hex_pair j1 \<longrightarrow> \<not> starts_with_hex_pair j2 \<longrightarrow> \<not> starts_with_hex_pair j3 \<longrightarrow>
    toString_hex i @ j1 \<noteq> [] \<longrightarrow> toString_hex a @ j2 \<noteq> [] \<longrightarrow> toString_hex c @ j3 \<noteq> [] \<longrightarrow>
    extractComponents d = Inr \<lparr> iv = i, auth = a, data = c \<rparr>)"
proof (intro conjI impI allI)
  show "extractComponents (filter base64_relevant d) = extractComponents d"
    by (simp add: extractComponents_def from_base64_filter)
next
  fix e
  assume "extractComponents d = Inl e"
  then show "e = invalid_text \<or> e = invalid_components"
    by (auto simp add: extractComponents_unfold split: if_splits)
next
  assume shape: "frame_text d =
      toString_hex i @ j1 @ ''.'' @ toString_hex a @ j2 @ ''.'' @ toString_hex c @ j3"
    and "ascii_text (j1 @ j2 @ j3)"
    and dots: "CHR ''.'' \<notin> set (j1 @ j2 @ j3)"
    and junk: "\<not> starts_with_hex_pair j1" "\<not> starts_with_hex_pair j2" "\<not> starts_with_hex_pair j3"
    and full: "toString_hex i @ j1 \<noteq> []" "toString_hex a @ j2 \<noteq> []" "toString_hex c @ j3 \<noteq> []"
  have joined: "frame_text d =
      (toString_hex i @ j1) @ CHR ''.'' # (toString_hex a @ j2) @ CHR ''.'' # (toString_hex c @ j3)"
    using shape by simp
  have "CHR ''.'' \<notin> set (toString_hex i @ j1)" "CHR ''.'' \<notin> set (toString_hex a @ j2)"
    "CHR ''.'' \<notin> set (toString_hex c @ j3)"
    using dots by (simp_all add: toString_hex_no_dot)
  then have "split CHR ''.''
      ((toString_hex i @ j1) @ CHR ''.'' # (toString_hex a @ j2) @ CHR ''.'' # (toString_hex c @ j3))
      = [toString_hex i @ j1, toString_hex a @ j2, toString_hex c @ j3]"
    by (rule split_three)
  then have parts:
    "frame_parts d = [toString_hex i @ j1, toString_hex a @ j2, toString_hex c @ j3]"
    unfolding frame_parts_def joined .
  have "CHR ''.'' \<in> set (frame_text d)" using shape by simp
  then show "extractComponents d = Inr \<lparr> iv = i, auth = a, data = c \<rparr>"
    using parts full junk
    by (simp add: extractComponents_unfold from_hex_toString_hex_junk)
qed

theorem extractComponents_lenient_witness:
  "frame_text ''MWFnMTIzLmNjNy4wZnp6'' = ''1ag123.cc7.0fzz'' \<and> ascii_text ''1ag123.cc7.0fzz'' \<and>
   extractComponents ''MWFnMTIzLmNjNy4wZnp6'' = Inr \<lparr> iv = [0x1a], auth = [0xcc], data = [0x0f] \<rparr>"
proof -
  have shape: "frame_text ''MWFnMTIzLmNjNy4wZnp6'' =
      toString_hex [0x1a] @ ''g123'' @ ''.'' @ toString_hex [0xcc] @ ''7'' @ ''.'' @ toString_hex [0x0f] @ ''zz''"
    by code_simp
  have digits: "toString_hex [0x1a] = ''1a''" "toString_hex [0xcc] = ''cc''" "toString_hex [0x0f] = ''0f''"
    by code_simp+
  have junk: "\<not> starts_with_hex_pair ''g123''" "\<not> starts_with_hex_pair ''7''"
    "\<not> starts_with_hex_pair ''zz''"
    by code_simp+
  have plain: "ascii_text (''g123'' @ ''7'' @ ''zz'')"
    by code_simp
  have whole: "ascii_text ''1ag123.cc7.0fzz''"
    by code_simp
  show ?thesis
    using extractComponents_lenient [where d = "''MWFnMTIzLmNjNy4wZnp6''" and i = "[0x1a]"
        and ?j1.0 = "''g123''" and a = "[0xcc]" and ?j2.0 = "''7''" and c = "[0x0f]" and ?j3.0 = "''zz''"]
      shape junk plain whole
    by (simp add: digits del: starts_with_hex_pair.simps)
qed

text \<open>
  Claim C5 as it was stated has malformed base64 and malformed hex end in an error and
  never in an empty or cut frame. The text \<open>zz.zz.zz\<close> (in base64,
  \<open>enouenoueno=\<close>) has no hex digit at all and is parsed into three empty buffers;
  \<open>1ag123.cc7.0fzz\<close> is parsed into three buffers of one byte; and the input
  \<open>@@YWEu!YmIu Y2M=\<close>, which is not base64, is parsed as \<open>aa.bb.cc\<close>.
\<close>

theorem malformed_digits_counterexample:
  "frame_text ''enouenoueno='' = ''zz.zz.zz'' \<and>
   extractComponents ''enouenoueno='' = Inr \<lparr> iv = [], auth = [], data = [] \<rparr> \<and>
   frame_text ''MWFnMTIzLmNjNy4wZnp6'' = ''1ag123.cc7.0fzz'' \<and>
   extractComponents ''MWFnMTIzLmNjNy4wZnp6'' = Inr \<lparr> iv = [0x1a], auth = [0xcc], data = [0x0f] \<rparr> \<and>
   extractComponents ''@@YWEu!YmIu Y2M='' = Inr \<lparr> iv = [0xaa], auth = [0xbb], data = [0xcc] \<rparr>"
  by code_simp

subsection \<open>The steps of a successful encryption\<close>

lemma and_then_eq_Inr: "and_then m f = Inr y \<longleftrightarrow> (\<exists>x. m = Inr x \<and> f x = Inr y)"
  by (cases m) (simp_all add: and_then_def)

lemma getCipherAuthTag_eq: "getCipherAuthTag P cipher method = getAuthTag P cipher"
  by (simp add: getCipherAuthTag_def strict_neq_def)

lemma complete_opts:
  assumes "\<not> incomplete os"
  obtains cfg m n k where "os = Some cfg" "algo cfg = Some m" "m \<noteq> []"
    "ivlen cfg = Some n" "n \<noteq> 0" "secret cfg = Some k" "k \<noteq> []"
proof -
  from assms obtain cfg where os: "os = Some cfg"
    by (cases os) (simp_all add: incomplete_def)
  with assms have "\<not> not_string (algo cfg)" "\<not> not_number (ivlen cfg)" "\<not> not_string (secret cfg)"
    by (simp_all add: incomplete_def)
  then obtain m n k where "algo cfg = Some m" "m \<noteq> []" "ivlen cfg = Some n" "n \<noteq> 0"
    "secret cfg = Some k" "k \<noteq> []"
    by (auto simp add: not_string_def not_number_def)
  with os show thesis by (rule that)
qed

lemma encryptData_steps:
  assumes "encryptData P d os = Inr s"
  obtains cfg m n k iv0 c0 t c1 b1 c2 b2 tag where
    "\<not> is_primitive d" "\<not> incomplete os" "os = Some cfg"
    "algo cfg = Some m" "ivlen cfg = Some n" "n \<noteq> 0" "secret cfg = Some k"
    "randomBytes P n = Inr iv0" "createCipheriv P m k iv0 = Inr c0"
    "JSON_stringify P d = Inr t" "cipher_update P c0 t = Inr (c1, b1)"
    "cipher_final P c1 = Inr (c2, b2)" "getAuthTag P c2 = Inr tag"
    "s = compileEncryptString iv0 tag (b1 @ b2)" "byteLength s \<le> 4093"
proof -
  from assms have prim: "\<not> is_primitive d"
    by (simp add: encryptData_def strict_neq_Object split: if_splits)
  have full: "\<not> incomplete os"
  proof
    assume "incomplete os"
    then show False
      using assms prim
      by (simp add: encryptData_def strict_neq_Object assertOptsExist_incomplete and_then_Inl)
  qed
  then obtain cfg m n k where cfg: "os = Some cfg" "algo cfg = Some m" "m \<noteq> []"
    "ivlen cfg = Some n" "n \<noteq> 0" "secret cfg = Some k" "k \<noteq> []"
    by (rule complete_opts)
  from assms prim full cfg
  have "\<exists>iv0 c0 t c1 b1 c2 b2 tag.
      randomBytes P n = Inr iv0 \<and> createCipheriv P m k iv0 = Inr c0 \<and>
      JSON_stringify P d = Inr t \<and> cipher_update P c0 t = Inr (c1, b1) \<and>
      cipher_final P c1 = Inr (c2, b2) \<and> getAuthTag P c2 = Inr tag \<and>
      s = compileEncryptString iv0 tag (b1 @ b2) \<and> byteLength s \<le> 4093"
    by (auto simp add: encryptData_def strict_neq_Object assertOptsExist_complete and_then_Inr
        and_then_eq_Inr genIv_def genCipher_def encryptSession_def getCipherAuthTag_eq
        ENC_MAX_LEN_def Let_def split: if_splits)
  with prim full cfg that show thesis by blast
qed

lemma join_three: "join CHR ''.'' [u, v, w] = u @ CHR ''.'' # v @ CHR ''.'' # w"
  by simp

lemma frame_text_compile:
  "frame_text (compileEncryptString i a c) =
     toString_hex i @ CHR ''.'' # toString_hex a @ CHR ''.'' # toString_hex c"
  by (simp add: frame_text_def compileEncryptString_def from_base64_toString_base64
      toString_utf8_from_utf8)

lemma frame_parts_compile:
  "frame_parts (compileEncryptString i a c) = [toString_hex i, toString_hex a, toString_hex c]"
  unfolding frame_parts_def frame_text_compile
  by (rule split_three) (rule toString_hex_no_dot)+

lemma count_dots_compile: "count_list (frame_text (compileEncryptString i a c)) CHR ''.'' = 2"
proof -
  have "count_list (toString_hex bs) CHR ''.'' = 0" for bs
    by (simp add: toString_hex_no_dot)
  then show ?thesis by (simp add: frame_text_compile)
qed

lemma extractComponents_compile:
  assumes "i \<noteq> []" "a \<noteq> []" "c \<noteq> []"
  shows "extractComponents (compileEncryptString i a c) = Inr \<lparr> iv = i, auth = a, data = c \<rparr>"
proof -
  have "CHR ''.'' \<in> set (frame_text (compileEncryptString i a c))"
    by (simp add: frame_text_compile)
  then show ?thesis
    using assms
    by (simp add: extractComponents_unfold frame_parts_compile toString_hex_empty
        from_hex_toString_hex)
qed

lemma compile_not_empty: "compileEncryptString i a c \<noteq> []"
proof
  assume "compileEncryptString i a c = []"
  then have "frame_text (compileEncryptString i a c) = frame_text []" by simp
  then show False
    by (simp add: frame_text_compile) (simp add: frame_text_def from_base64_def
        base64_digits_Nil toString_utf8_def)
qed

lemma byteLength_compile:
  "byteLength (compileEncryptString i a c) =
     4 * ((2 * length i + 2 * length a + 2 * length c + 4) div 3)"
  by (simp add: byteLength_length compileEncryptString_def length_toString_base64
      from_utf8_def length_toString_hex)

text \<open>What a successful encryption has in its frame when the runtime is as assumed.\<close>

lemma encrypted_parts:
  assumes like: "encrypts_like_node P" and enc: "encryptData P d os = Inr s"
  obtains cfg m n k iv0 c0 t c1 b1 c2 b2 tag where
    "\<not> incomplete os" "os = Some cfg" "algo cfg = Some m" "secret cfg = Some k"
    "createCipheriv P m k iv0 = Inr c0" "JSON_stringify P d = Inr (JStr t)"
    "cipher_update P c0 (JStr t) = Inr (c1, b1)" "cipher_final P c1 = Inr (c2, b2)"
    "getAuthTag P c2 = Inr tag" "s = compileEncryptString iv0 tag (b1 @ b2)"
    "iv0 \<noteq> []" "b1 @ b2 \<noteq> []" "\<not> is_primitive d"
proof -
  from enc obtain cfg m n k iv0 c0 t c1 b1 c2 b2 tag where steps:
    "\<not> is_primitive d" "\<not> incomplete os" "os = Some cfg"
    "algo cfg = Some m" "ivlen cfg = Some n" "n \<noteq> 0" "secret cfg = Some k"
    "randomBytes P n = Inr iv0" "createCipheriv P m k iv0 = Inr c0"
    "JSON_stringify P d = Inr t" "cipher_update P c0 t = Inr (c1, b1)"
    "cipher_final P c1 = Inr (c2, b2)" "getAuthTag P c2 = Inr tag"
    "s = compileEncryptString iv0 tag (b1 @ b2)"
    by (rule encryptData_steps)
  from like steps(8) have "int (length iv0) = n"
    unfolding encrypts_like_node_def by blast
  with steps(6) have iv: "iv0 \<noteq> []" by auto
  from like steps(11) obtain txt0 where t: "t = JStr txt0"
    unfolding encrypts_like_node_def by blast
  from like steps(10) t have "txt0 \<noteq> []"
    unfolding encrypts_like_node_def by blast
  with like steps(11,12) t have "b1 @ b2 \<noteq> []"
    unfolding encrypts_like_node_def by blast
  with steps iv t show thesis by (intro that [of cfg m k iv0 c0 txt0 c1 b1 c2 b2 tag]) simp_all
qed

subsection \<open>A frame without a tag\<close>

text \<open>
  Claim C3. The claim has the parser accept a frame whose second piece, the one of the
  authentication tag, is empty, as the frame of an algorithm without a tag is: the
  doc comment of \<^verbatim>\<open>getCipherAuthTag\<close> promises "an empty buffer with zero bytes"
  for it, \<^verbatim>\<open>compileEncryptString\<close> then writes nothing between the two dots, and
  \<^verbatim>\<open>decryptData\<close> sets the tag only when it has a length. The test
  \<^verbatim>\<open>!components[1]\<close> of \<^verbatim>\<open>extractComponents\<close> refuses every such frame:
  whatever the initialization vector and the ciphertext, the frame compiled with an
  empty tag is answered with the \<^verbatim>\<open>RangeError\<close> "invalid number of components",
  by the parser and so by \<^verbatim>\<open>decryptData\<close>, on every runtime. The text
  \<open>aa..bb\<close> (in base64, \<open>YWEuLmJi\<close>) is one such frame.
\<close>

theorem frame_without_tag_rejected:
  "extractComponents (compileEncryptString i [] c) = Inl invalid_components \<and>
   decryptData P (compileEncryptString i [] c) cbc_opts = Inl invalid_components \<and>
   frame_text ''YWEuLmJi'' = ''aa..bb'' \<and>
   frame_parts ''YWEuLmJi'' = [''aa'', [], ''bb''] \<and>
   extractComponents ''YWEuLmJi'' = Inl invalid_components"
proof -
  have "CHR ''.'' \<in> set (frame_text (compileEncryptString i [] c))"
    by (simp add: frame_text_compile)
  then have parser: "extractComponents (compileEncryptString i [] c) = Inl invalid_components"
    by (simp add: extractComponents_unfold frame_parts_compile toString_hex_Nil)
  have "\<not> incomplete cbc_opts"
    by (simp add: incomplete_def cbc_opts_def not_string_def not_number_def)
  with parser
  have "decryptData P (compileEncryptString i [] c) cbc_opts = Inl invalid_components"
    by (simp add: decryptData_parse_error compile_not_empty)
  moreover have "frame_text ''YWEuLmJi'' = ''aa..bb''"
    "frame_parts ''YWEuLmJi'' = [''aa'', [], ''bb'']"
    "extractComponents ''YWEuLmJi'' = Inl invalid_components"
    by code_simp+
  ultimately show ?thesis using parser by simp
qed

subsection \<open>The small runtime behaves as assumed\<close>

lemma demo_stringify_text: "demo_stringify v = Inr (JStr s) \<Longrightarrow> s \<noteq> []"
  by (induction v rule: demo_stringify.induct) (auto split: if_splits)

lemma demo_encrypts_like_node: "encrypts_like_node demo"
  unfolding encrypts_like_node_def
proof (intro conjI allI impI)
  fix n b
  assume "randomBytes demo n = Inr b"
  then show "int (length b) = n" by (auto simp add: demo_def split: if_splits)
next
  fix v s
  assume "JSON_stringify demo v = Inr (JStr s)"
  then show "s \<noteq> []" using demo_stringify_text [of v s] by (simp add: demo_def)
next
  fix c v r
  assume "cipher_update demo c v = Inr r"
  then show "\<exists>s. v = JStr s" by (cases v) (simp_all add: demo_def)
next
  fix c s c1 b1 c2 b2
  assume "s \<noteq> []" and "cipher_update demo c (JStr s) = Inr (c1, b1)"
    and "cipher_final demo c1 = Inr (c2, b2)"
  then show "b1 @ b2 \<noteq> []" by (auto simp add: demo_def from_utf8_def)
qed

lemma demo_decrypts_like_node: "decrypts_like_node demo"
  unfolding decrypts_like_node_def
proof (intro conjI allI impI)
  fix c tag
  assume "getAuthTag demo c = Inr tag"
  then show "tag \<noteq> []" by (auto simp add: demo_def split: if_splits)
next
  fix m k i s c0 c1 b1 c2 b2 tag
  assume made: "createCipheriv demo m k i = Inr c0"
    and fed: "cipher_update demo c0 (JStr s) = Inr (c1, b1)"
    and ended: "cipher_final demo c1 = Inr (c2, b2)"
    and tagged: "getAuthTag demo c2 = Inr tag"
  have restored: "toString_utf8 (map (\<lambda>b. b - 1) (map (\<lambda>b. b + 1) (from_utf8 s))) = s"
    by (simp add: comp_def toString_utf8_from_utf8)
  from made fed ended tagged have "tag = [of_nat (length s)]" "b1 @ b2 = map (\<lambda>b. b + 1) (from_utf8 s)"
    by (auto simp add: demo_def split: if_splits)
  with restored
  have "createDecipheriv demo m k i = Inr \<lparr> d_aead = demo_aead m, d_tag = None, d_count = 0 \<rparr> \<and>
      has_setAuthTag demo \<lparr> d_aead = demo_aead m, d_tag = None, d_count = 0 \<rparr> \<and>
      setAuthTag demo \<lparr> d_aead = demo_aead m, d_tag = None, d_count = 0 \<rparr> tag
        = Inr \<lparr> d_aead = demo_aead m, d_tag = Some tag, d_count = 0 \<rparr> \<and>
      decipher_update demo \<lparr> d_aead = demo_aead m, d_tag = Some tag, d_count = 0 \<rparr> (b1 @ b2)
        = Inr (\<lparr> d_aead = demo_aead m, d_tag = Some tag, d_count = length s \<rparr>, s) \<and>
      decipher_final demo \<lparr> d_aead = demo_aead m, d_tag = Some tag, d_count = length s \<rparr>
        = Inr (\<lparr> d_aead = demo_aead m, d_tag = Some tag, d_count = length s \<rparr>, []) \<and>
      s @ [] = s"
    by (simp add: demo_def from_utf8_def)
  then show "\<exists>d0 d1 d2 d3 s1 s2.
      createDecipheriv demo m k i = Inr d0 \<and> has_setAuthTag demo d0 \<and>
      setAuthTag demo d0 tag = Inr d1 \<and> decipher_update demo d1 (b1 @ b2) = Inr (d2, s1) \<and>
      decipher_final demo d2 = Inr (d3, s2) \<and> s1 @ s2 = s"
    by blast
qed

lemma demo_encrypts_empty_object:
  "encryptData demo (JObj []) gcm_opts
     = Inr ''MDcwNzA3MDcwNzA3MDcwNzA3MDcwNzA3LjAyLjdjN2U=''"
  by code_simp

subsection \<open>The encoded frame\<close>

text \<open>
  Claim C10. Whenever \<^verbatim>\<open>encryptData\<close> returns a string, on a runtime that
  encrypts as assumed above, the base64-decoded form of the string is the hex of the
  initialization vector, of the tag and of the ciphertext with a \<open>.\<close> between them.
  It has exactly two \<open>.\<close>, it splits into exactly three pieces, and the first and
  the third are not empty: \<open>ivlen\<close> is not \<open>0\<close> and \<^verbatim>\<open>randomBytes\<close> returns
  that many bytes, and the text given to the cipher is not empty.
\<close>

theorem encoded_frame_shape:
  assumes "encrypts_like_node P" and "encryptData P d os = Inr s"
  shows "count_list (frame_text s) CHR ''.'' = 2 \<and> length (frame_parts s) = 3 \<and>
         frame_parts s ! 0 \<noteq> [] \<and> frame_parts s ! 2 \<noteq> [] \<and>
         (\<exists>i a c. i \<noteq> [] \<and> c \<noteq> [] \<and>
            frame_text s = toString_hex i @ ''.'' @ toString_hex a @ ''.'' @ toString_hex c \<and>
            frame_parts s = [toString_hex i, toString_hex a, toString_hex c])"
proof -
  from assms obtain iv0 tag b1 b2 where s: "s = compileEncryptString iv0 tag (b1 @ b2)"
    and full: "iv0 \<noteq> []" "b1 @ b2 \<noteq> []"
    by (rule encrypted_parts)
  have shape: "frame_text s = toString_hex iv0 @ ''.'' @ toString_hex tag @ ''.'' @ toString_hex (b1 @ b2)"
    unfolding s by (simp add: frame_text_compile)
  have parts: "frame_parts s = [toString_hex iv0, toString_hex tag, toString_hex (b1 @ b2)]"
    unfolding s by (rule frame_parts_compile)
  have dots: "count_list (frame_text s) CHR ''.'' = 2"
    unfolding s by (rule count_dots_compile)
  have hex: "toString_hex iv0 \<noteq> []" "toString_hex (b1 @ b2) \<noteq> []"
    using full by (simp_all only: toString_hex_empty not_False_eq_True)
  have "\<exists>i a c. i \<noteq> [] \<and> c \<noteq> [] \<and>
      frame_text s = toString_hex i @ ''.'' @ toString_hex a @ ''.'' @ toString_hex c \<and>
      frame_parts s = [toString_hex i, toString_hex a, toString_hex c]"
  proof (intro exI conjI)
    show "iv0 \<noteq> []" by fact
    show "b1 @ b2 \<noteq> []" by fact
    show "frame_text s = toString_hex iv0 @ ''.'' @ toString_hex tag @ ''.'' @ toString_hex (b1 @ b2)"
      by fact
    show "frame_parts s = [toString_hex iv0, toString_hex tag, toString_hex (b1 @ b2)]" by fact
  qed
  with dots hex show ?thesis by (simp add: parts)
qed

theorem encoded_frame_shape_witness:
  "encrypts_like_node demo \<and>
   encryptData demo (JObj []) gcm_opts = Inr ''MDcwNzA3MDcwNzA3MDcwNzA3MDcwNzA3LjAyLjdjN2U='' \<and>
   frame_text ''MDcwNzA3MDcwNzA3MDcwNzA3MDcwNzA3LjAyLjdjN2U='' = ''070707070707070707070707.02.7c7e'' \<and>
   count_list (frame_text ''MDcwNzA3MDcwNzA3MDcwNzA3MDcwNzA3LjAyLjdjN2U='') CHR ''.'' = 2 \<and>
   length (frame_parts ''MDcwNzA3MDcwNzA3MDcwNzA3MDcwNzA3LjAyLjdjN2U='') = 3 \<and>
   frame_parts ''MDcwNzA3MDcwNzA3MDcwNzA3MDcwNzA3LjAyLjdjN2U='' ! 0 \<noteq> [] \<and>
   frame_parts ''MDcwNzA3MDcwNzA3MDcwNzA3MDcwNzA3LjAyLjdjN2U='' ! 2 \<noteq> []"
proof -
  have "frame_text ''MDcwNzA3MDcwNzA3MDcwNzA3MDcwNzA3LjAyLjdjN2U='' = ''070707070707070707070707.02.7c7e''"
    by code_simp
  then show ?thesis
    using encoded_frame_shape [OF demo_encrypts_like_node demo_encrypts_empty_object]
      demo_encrypts_like_node demo_encrypts_empty_object
    by simp
qed

subsection \<open>The size limit\<close>

text \<open>
  Claim C6. \<^verbatim>\<open>encryptData\<close> never returns a string of more than 4093 bytes. When
  the data is an object, the options are complete and every step up to the encoded
  text has succeeded, the call throws its \<^verbatim>\<open>Error\<close> "Cannot encrypt the session,
  max cookie length exceeded" if the byte length of the encoded text is above 4093,
  and returns the encoded text if it is 4093 or less.
\<close>

theorem size_limit_enforced:
  "(\<forall>s. encryptData P d os = Inr s \<longrightarrow> byteLength s \<le> 4093) \<and>
   (\<not> is_primitive d \<longrightarrow>
    os = Some \<lparr> algo = Some m, ivlen = Some n, secret = Some k \<rparr> \<longrightarrow>
    m \<noteq> [] \<longrightarrow> n \<noteq> 0 \<longrightarrow> k \<noteq> [] \<longrightarrow>
    genIv P n = Inr iv0 \<longrightarrow> genCipher P m k iv0 = Inr cipher \<longrightarrow>
    encryptSession P cipher d = Inr (cipher1, encSession) \<longrightarrow>
    getCipherAuthTag P cipher1 m = Inr tag \<longrightarrow>
    encryptData P d os =
      (if 4093 < byteLength (compileEncryptString iv0 tag encSession)
       then Inl max_length_exceeded
       else Inr (compileEncryptString iv0 tag encSession)))"
proof (intro conjI allI impI)
  fix s
  assume "encryptData P d os = Inr s"
  then show "byteLength s \<le> 4093" by (rule encryptData_steps)
next
  assume "\<not> is_primitive d"
    and "os = Some \<lparr> algo = Some m, ivlen = Some n, secret = Some k \<rparr>"
    and "m \<noteq> []" "n \<noteq> 0" "k \<noteq> []"
    and "genIv P n = Inr iv0" "genCipher P m k iv0 = Inr cipher"
    and "encryptSession P cipher d = Inr (cipher1, encSession)"
    and "getCipherAuthTag P cipher1 m = Inr tag"
  then show "encryptData P d os =
      (if 4093 < byteLength (compileEncryptString iv0 tag encSession)
       then Inl max_length_exceeded
       else Inr (compileEncryptString iv0 tag encSession))"
    by (simp add: encryptData_def strict_neq_Object assertOptsExist_def not_string_def
        not_number_def and_then_Inr ENC_MAX_LEN_def)
qed

theorem size_limit_enforced_witness:
  "encryptData demo (JObj [])
     (Some \<lparr> algo = Some ''aes-256-gcm'', ivlen = Some 2000, secret = Some ''key'' \<rparr>)
     = Inl max_length_exceeded \<and>
   byteLength (compileEncryptString (replicate 2000 7) [2] [124, 126]) = 5344 \<and>
   encryptData demo (JObj [])
     (Some \<lparr> algo = Some ''aes-256-gcm'', ivlen = Some 12, secret = Some ''key'' \<rparr>)
     = Inr (compileEncryptString (replicate 12 7) [2] [124, 126]) \<and>
   byteLength (compileEncryptString (replicate 12 7) [2] [124, 126]) = 44"
proof -
  have aead: "demo_aead ''aes-256-gcm''" by code_simp
  have iv: "genIv demo n = Inr (replicate (nat n) 7)" if "0 \<le> n" for n
    using that by (simp add: genIv_def demo_def)
  have made: "genCipher demo ''aes-256-gcm'' ''key'' i
      = Inr \<lparr> c_aead = True, c_final = False, c_count = 0 \<rparr>" for i
    using aead by (simp add: genCipher_def demo_def)
  have session: "encryptSession demo \<lparr> c_aead = True, c_final = False, c_count = 0 \<rparr> (JObj [])
      = Inr (\<lparr> c_aead = True, c_final = True, c_count = 2 \<rparr>, [124, 126])"
    by code_simp
  have tag: "getCipherAuthTag demo \<lparr> c_aead = True, c_final = True, c_count = 2 \<rparr> m = Inr [2]" for m
    by (simp add: getCipherAuthTag_eq demo_def)
  have large: "byteLength (compileEncryptString (replicate 2000 7) [2] [124, 126]) = 5344"
    by (simp add: byteLength_compile)
  have small: "byteLength (compileEncryptString (replicate 12 7) [2] [124, 126]) = 44"
    by (simp add: byteLength_compile)
  show ?thesis
    using size_limit_enforced [where P = demo and d = "JObj []" and m = "''aes-256-gcm''"
        and n = 2000 and k = "''key''" and ?iv0.0 = "replicate 2000 7"
        and os = "Some \<lparr> algo = Some ''aes-256-gcm'', ivlen = Some 2000, secret = Some ''key'' \<rparr>"
        and cipher = "\<lparr> c_aead = True, c_final = False, c_count = 0 \<rparr>"
        and ?cipher1.0 = "\<lparr> c_aead = True, c_final = True, c_count = 2 \<rparr>"
        and encSession = "[124, 126]" and tag = "[2]"]
      size_limit_enforced [where P = demo and d = "JObj []" and m = "''aes-256-gcm''"
        and n = 12 and k = "''key''" and ?iv0.0 = "replicate 12 7"
        and os = "Some \<lparr> algo = Some ''aes-256-gcm'', ivlen = Some 12, secret = Some ''key'' \<rparr>"
        and cipher = "\<lparr> c_aead = True, c_final = False, c_count = 0 \<rparr>"
        and ?cipher1.0 = "\<lparr> c_aead = True, c_final = True, c_count = 2 \<rparr>"
        and encSession = "[124, 126]" and tag = "[2]"]
      iv [of 2000] iv [of 12] made session tag large small
    by simp
qed

subsection \<open>Decrypting what was encrypted\<close>

lemma decodeToJson_object:
  assumes "JSON_parse P t = Inr d" and "\<not> is_primitive d"
  shows "decodeToJson P t = Inr d"
  using assms primitive_or_truthy [of d]
  by (cases d) (simp_all add: decodeToJson_def strict_neq_def)

text \<open>
  Claim C1, as amended. On a runtime whose cipher and decipher behave as assumed above,
  whenever \<^verbatim>\<open>encryptData\<close> returns a string for a session data that JSON gives back
  (\<^verbatim>\<open>JSON.parse\<close> of its \<^verbatim>\<open>JSON.stringify\<close> is the data again),
  \<^verbatim>\<open>decryptData\<close> of that string with the same options returns the data.
\<close>

theorem decrypt_encrypt_round_trip:
  assumes "encrypts_like_node P" and "decrypts_like_node P"
    and "encryptData P d os = Inr s"
    and "JSON_stringify P d = Inr (JStr t)" and "JSON_parse P t = Inr d"
  shows "decryptData P s os = Inr d"
proof -
  from assms(1,3) obtain cfg m k iv0 c0 t0 c1 b1 c2 b2 tag where
    os: "\<not> incomplete os" "os = Some cfg" "algo cfg = Some m" "secret cfg = Some k"
    and made: "createCipheriv P m k iv0 = Inr c0"
    and json: "JSON_stringify P d = Inr (JStr t0)"
    and fed: "cipher_update P c0 (JStr t0) = Inr (c1, b1)"
    and ended: "cipher_final P c1 = Inr (c2, b2)"
    and tagged: "getAuthTag P c2 = Inr tag"
    and s: "s = compileEncryptString iv0 tag (b1 @ b2)"
    and full: "iv0 \<noteq> []" "b1 @ b2 \<noteq> []"
    and object: "\<not> is_primitive d"
    by (rule encrypted_parts)
  from json assms(4) have t0: "t0 = t" by simp
  from assms(2) tagged have tag: "tag \<noteq> []"
    unfolding decrypts_like_node_def by blast
  from assms(2) made fed ended tagged obtain d0 d1 d2 d3 s1 s2 where
    dec: "createDecipheriv P m k iv0 = Inr d0" "has_setAuthTag P d0"
      "setAuthTag P d0 tag = Inr d1" "decipher_update P d1 (b1 @ b2) = Inr (d2, s1)"
      "decipher_final P d2 = Inr (d3, s2)" "s1 @ s2 = t0"
    unfolding decrypts_like_node_def by blast
  have parsed: "extractComponents s = Inr \<lparr> iv = iv0, auth = tag, data = b1 @ b2 \<rparr>"
    unfolding s using full(1) tag full(2) by (rule extractComponents_compile)
  have "s \<noteq> []" unfolding s by (rule compile_not_empty)
  moreover have "decodeToUtf8 P d1 (b1 @ b2) = Inr t"
    using dec t0 by (simp add: decodeToUtf8_def and_then_Inr)
  moreover have "decodeToJson P t = Inr d"
    using assms(5) object by (rule decodeToJson_object)
  ultimately show ?thesis
    using os parsed dec tag
    by (simp add: decryptData_def byteLength_length assertOptsExist_complete and_then_Inr
        genDecipher_def)
qed

theorem decrypt_encrypt_round_trip_witness:
  "encrypts_like_node demo \<and> decrypts_like_node demo \<and>
   encryptData demo (JObj []) gcm_opts = Inr ''MDcwNzA3MDcwNzA3MDcwNzA3MDcwNzA3LjAyLjdjN2U='' \<and>
   JSON_stringify demo (JObj []) = Inr (JStr ''{}'') \<and> JSON_parse demo ''{}'' = Inr (JObj []) \<and>
   decryptData demo ''MDcwNzA3MDcwNzA3MDcwNzA3MDcwNzA3LjAyLjdjN2U='' gcm_opts = Inr (JObj [])"
proof -
  have json: "JSON_stringify demo (JObj []) = Inr (JStr ''{}'')" "JSON_parse demo ''{}'' = Inr (JObj [])"
    by (simp_all add: demo_def demo_parse_def)
  show ?thesis
    using decrypt_encrypt_round_trip [OF demo_encrypts_like_node demo_decrypts_like_node
        demo_encrypts_empty_object json]
      demo_encrypts_like_node demo_decrypts_like_node demo_encrypts_empty_object json
    by simp
qed

text \<open>
  Claim C1 as it was stated covers every session data that is an object. The wrapper
  object \<^verbatim>\<open>new Boolean(false)\<close> is one: it is encrypted, its JSON text is
  \<open>false\<close>, and the decryption ends in the error of \<^verbatim>\<open>decodeToJson\<close>, because
  the parsed value is falsy. The object \<^verbatim>\<open>{a: undefined}\<close> is encrypted and
  decrypted, and comes back as the empty object.
\<close>

theorem round_trip_counterexample:
  "\<not> is_primitive (JWrapper (JBool False)) \<and> \<not> incomplete gcm_opts \<and>
   encryptData demo (JWrapper (JBool False)) gcm_opts
     = Inr ''MDcwNzA3MDcwNzA3MDcwNzA3MDcwNzA3LjA1LjY3NjI2ZDc0NjY='' \<and>
   decryptData demo ''MDcwNzA3MDcwNzA3MDcwNzA3MDcwNzA3LjA1LjY3NjI2ZDc0NjY='' gcm_opts
     = Inl invalid_json \<and>
   encryptData demo (JObj [(''a'', JUndefined)]) gcm_opts
     = Inr ''MDcwNzA3MDcwNzA3MDcwNzA3MDcwNzA3LjAyLjdjN2U='' \<and>
   decryptData demo ''MDcwNzA3MDcwNzA3MDcwNzA3MDcwNzA3LjAyLjdjN2U='' gcm_opts = Inr (JObj []) \<and>
   JObj [] \<noteq> JObj [(''a'', JUndefined)]"
  by code_simp

end
